theory Spec2Isabelle
  imports Main "HOL-Library.Word"
begin

section \<open>JavaScript strings\<close>

text \<open>
  The form validator of \<^verbatim>\<open>script.js\<close> (function \<^verbatim>\<open>initializeFormValidation\<close>)
  works on the \<^verbatim>\<open>value\<close> of six input elements. A JavaScript string is a sequence
  of UTF-16 code units; \<^verbatim>\<open>length\<close>, \<^verbatim>\<open>trim\<close>, \<^verbatim>\<open>parseInt\<close> and regular expressions
  without the \<^verbatim>\<open>u\<close> flag all work per code unit. Identifiers and messages that are
  literals of the source are kept as HOL strings.
\<close>

type_synonym cu = "16 word"
type_synonym jsstring = "cu list"

definition js :: "string \<Rightarrow> jsstring" where
  "js s = map (\<lambda>c. of_char c) s"

text \<open>
  White space as \<^verbatim>\<open>String.prototype.trim\<close>, \<^verbatim>\<open>parseInt\<close> and the class \<^verbatim>\<open>\s\<close>
  understand it: the WhiteSpace and LineTerminator code points of ECMAScript
  (TAB, LF, VT, FF, CR, SP, NBSP, U+1680, U+2000..U+200A, U+2028, U+2029, U+202F,
  U+205F, U+3000, U+FEFF).
\<close>

definition isSpace :: "cu \<Rightarrow> bool" where
  "isSpace c = ((0x09 \<le> c \<and> c \<le> 0x0D) \<or> c = 0x20 \<or> c = 0xA0 \<or> c = 0x1680
     \<or> (0x2000 \<le> c \<and> c \<le> 0x200A) \<or> c = 0x2028 \<or> c = 0x2029 \<or> c = 0x202F
     \<or> c = 0x205F \<or> c = 0x3000 \<or> c = 0xFEFF)"

text \<open>The line terminators, which the regular-expression dot does not match.\<close>

definition isLineTerminator :: "cu \<Rightarrow> bool" where
  "isLineTerminator c = (c = 0x0A \<or> c = 0x0D \<or> c = 0x2028 \<or> c = 0x2029)"

definition trim :: "jsstring \<Rightarrow> jsstring" where
  "trim s = rev (dropWhile isSpace (rev (dropWhile isSpace s)))"

subsection \<open>Character classes of the four regular expressions\<close>

definition isLower :: "cu \<Rightarrow> bool" where \<comment> \<open>\<^verbatim>\<open>[a-z]\<close>\<close>
  "isLower c = (0x61 \<le> c \<and> c \<le> 0x7A)"

definition isUpper :: "cu \<Rightarrow> bool" where \<comment> \<open>\<^verbatim>\<open>[A-Z]\<close>\<close>
  "isUpper c = (0x41 \<le> c \<and> c \<le> 0x5A)"

definition isDigit :: "cu \<Rightarrow> bool" where \<comment> \<open>\<^verbatim>\<open>\d\<close> and \<^verbatim>\<open>[0-9]\<close>\<close>
  "isDigit c = (0x30 \<le> c \<and> c \<le> 0x39)"

definition isSymbol :: "cu \<Rightarrow> bool" where \<comment> \<open>\<^verbatim>\<open>[@$!%*?&]\<close>\<close>
  "isSymbol c = (c = 0x40 \<or> c = 0x24 \<or> c = 0x21 \<or> c = 0x25 \<or> c = 0x2A \<or> c = 0x3F \<or> c = 0x26)"

definition isPasswordChar :: "cu \<Rightarrow> bool" where \<comment> \<open>\<^verbatim>\<open>[A-Za-z\d@$!%*?&]\<close>\<close>
  "isPasswordChar c = (isUpper c \<or> isLower c \<or> isDigit c \<or> isSymbol c)"

definition isNameChar :: "cu \<Rightarrow> bool" where \<comment> \<open>\<^verbatim>\<open>[a-zA-Z\s]\<close>\<close>
  "isNameChar c = (isLower c \<or> isUpper c \<or> isSpace c)"

definition isAddrChar :: "cu \<Rightarrow> bool" where \<comment> \<open>\<^verbatim>\<open>[^\s@]\<close>\<close>
  "isAddrChar c = (\<not> (isSpace c \<or> c = 0x40))"

definition isSeparator :: "cu \<Rightarrow> bool" where \<comment> \<open>\<^verbatim>\<open>[-. ]\<close>\<close>
  "isSeparator c = (c = 0x2D \<or> c = 0x2E \<or> c = 0x20)"

definition isDot :: "cu \<Rightarrow> bool" where \<comment> \<open>the pattern \<^verbatim>\<open>.\<close>\<close>
  "isDot c = (\<not> isLineTerminator c)"

definition isChar :: "cu \<Rightarrow> cu \<Rightarrow> bool" where \<comment> \<open>a literal character\<close>
  "isChar a c = (c = a)"

section \<open>Regular expressions\<close>

text \<open>
  The regular expressions of \<^verbatim>\<open>validateField\<close> are sequences of these atoms: one
  character of a class, an optional character (\<^verbatim>\<open>?\<close>), a class repeated at least
  \<open>n\<close> times (\<^verbatim>\<open>*\<close>, \<^verbatim>\<open>+\<close>, \<^verbatim>\<open>{n,}\<close>) or exactly \<open>n\<close> times (\<^verbatim>\<open>{n}\<close>), a
  lookahead \<^verbatim>\<open>(?=...)\<close> and the end anchor \<^verbatim>\<open>$\<close> (no \<^verbatim>\<open>m\<close> flag: the end of the
  input). Capturing groups only group and are dropped.
\<close>

datatype atom =
    Cls "cu \<Rightarrow> bool"
  | Opt "cu \<Rightarrow> bool"
  | AtLeast nat "cu \<Rightarrow> bool"
  | Exactly nat "cu \<Rightarrow> bool"
  | Look "atom list"
  | Eol

text \<open>
  \<open>matchHere r s\<close>: some way of matching the pattern \<open>r\<close> starts at the beginning of
  \<open>s\<close>. \<^verbatim>\<open>RegExp.prototype.test\<close> asks whether a match exists, so the order in
  which a backtracking engine tries the alternatives of a quantifier does not matter.
\<close>

fun matchHere :: "atom list \<Rightarrow> jsstring \<Rightarrow> bool" where
  "matchHere [] s = True"
| "matchHere (Eol # r) s = (s = [] \<and> matchHere r s)"
| "matchHere (Look l # r) s = (matchHere l s \<and> matchHere r s)"
| "matchHere (Cls P # r) [] = False"
| "matchHere (Cls P # r) (c # cs) = (P c \<and> matchHere r cs)"
| "matchHere (Opt P # r) [] = matchHere r []"
| "matchHere (Opt P # r) (c # cs) = ((P c \<and> matchHere r cs) \<or> matchHere r (c # cs))"
| "matchHere (Exactly 0 P # r) s = matchHere r s"
| "matchHere (Exactly (Suc n) P # r) [] = False"
| "matchHere (Exactly (Suc n) P # r) (c # cs) = (P c \<and> matchHere (Exactly n P # r) cs)"
| "matchHere (AtLeast (Suc n) P # r) [] = False"
| "matchHere (AtLeast (Suc n) P # r) (c # cs) = (P c \<and> matchHere (AtLeast n P # r) cs)"
| "matchHere (AtLeast 0 P # r) [] = matchHere r []"
| "matchHere (AtLeast 0 P # r) (c # cs) =
     ((P c \<and> matchHere (AtLeast 0 P # r) cs) \<or> matchHere r (c # cs))"

text \<open>
  All four patterns begin with \<^verbatim>\<open>^\<close> and have no flags, so \<^verbatim>\<open>test\<close> tries the
  start of the input only. The leading \<^verbatim>\<open>^\<close> is this choice of position and is not
  an atom of the lists below.
\<close>

definition test :: "atom list \<Rightarrow> jsstring \<Rightarrow> bool" where
  "test r s = matchHere r s"

definition nameRegex :: "atom list" where \<comment> \<open>\<^verbatim>\<open>/^[a-zA-Z\s]+$/\<close>\<close>
  "nameRegex = [AtLeast 1 isNameChar, Eol]"

definition emailRegex :: "atom list" where \<comment> \<open>\<^verbatim>\<open>/^[^\s@]+@[^\s@]+\.[^\s@]+$/\<close>\<close>
  "emailRegex = [AtLeast 1 isAddrChar, Cls (isChar 0x40), AtLeast 1 isAddrChar,
     Cls (isChar 0x2E), AtLeast 1 isAddrChar, Eol]"

definition passwordRegex :: "atom list" where
  \<comment> \<open>\<^verbatim>\<open>/^(?=.*[a-z])(?=.*[A-Z])(?=.*\d)(?=.*[@$!%*?&])[A-Za-z\d@$!%*?&]{8,}$/\<close>\<close>
  "passwordRegex = [Look [AtLeast 0 isDot, Cls isLower], Look [AtLeast 0 isDot, Cls isUpper],
     Look [AtLeast 0 isDot, Cls isDigit], Look [AtLeast 0 isDot, Cls isSymbol],
     AtLeast 8 isPasswordChar, Eol]"

definition phoneRegex :: "atom list" where
  \<comment> \<open>\<^verbatim>\<open>/^\(?([0-9]{3})\)?[-. ]?([0-9]{3})[-. ]?([0-9]{4})$/\<close>\<close>
  "phoneRegex = [Opt (isChar 0x28), Exactly 3 isDigit, Opt (isChar 0x29), Opt isSeparator,
     Exactly 3 isDigit, Opt isSeparator, Exactly 4 isDigit, Eol]"

section \<open>parseInt\<close>

text \<open>
  \<^verbatim>\<open>parseInt(value)\<close> with no radix: leading white space is skipped, one sign is
  read, a prefix \<^verbatim>\<open>0x\<close> or \<^verbatim>\<open>0X\<close> selects radix 16 (radix 10 otherwise), and the
  longest prefix of digits of that radix is the number; with no digit the result is
  NaN, here \<open>None\<close>. The result is the mathematical integer: the source only compares
  it with 13 and 120, and rounding to a double is monotone and exact on small integers,
  so the comparisons are those of the integer.
\<close>

definition isHexDigit :: "cu \<Rightarrow> bool" where
  "isHexDigit c = (isDigit c \<or> (0x61 \<le> c \<and> c \<le> 0x66) \<or> (0x41 \<le> c \<and> c \<le> 0x46))"

definition isRadixDigit :: "nat \<Rightarrow> cu \<Rightarrow> bool" where
  "isRadixDigit R c = (if R = 16 then isHexDigit c else isDigit c)"

definition digitValue :: "cu \<Rightarrow> int" where
  "digitValue c = (if isDigit c then uint c - 0x30
     else if 0x61 \<le> c \<and> c \<le> 0x66 then uint c - 0x61 + 10
     else uint c - 0x41 + 10)"

definition radixValue :: "nat \<Rightarrow> jsstring \<Rightarrow> int" where
  "radixValue R Z = foldl (\<lambda>a c. a * int R + digitValue c) 0 Z"

definition parseInt :: "jsstring \<Rightarrow> int option" where
  "parseInt inputString =
     (let S = dropWhile isSpace inputString;
          sign = (case S of [] \<Rightarrow> 1 | c # _ \<Rightarrow> if c = 0x2D then - 1 else (1::int));
          S1 = (case S of [] \<Rightarrow> [] | c # cs \<Rightarrow> if c = 0x2B \<or> c = 0x2D then cs else S);
          hex = (case S1 of a # b # _ \<Rightarrow> a = 0x30 \<and> (b = 0x78 \<or> b = 0x58) | _ \<Rightarrow> False);
          R = (if hex then 16 else 10);
          S2 = (if hex then drop 2 S1 else S1);
          Z = takeWhile (isRadixDigit R) S2
      in if Z = [] then None else Some (sign * radixValue R Z))"

section \<open>The rules of validateField\<close>

datatype field = fullname | email | password | confirmPassword | age | phone

text \<open>
  The \<^verbatim>\<open>switch\<close> of \<^verbatim>\<open>validateField\<close>: from the field name, the value and
  \<^verbatim>\<open>fields.password.value\<close> to the pair of the locals \<^verbatim>\<open>isValid\<close> and
  \<^verbatim>\<open>errorMessage\<close>, which start as \<^verbatim>\<open>false\<close> and \<^verbatim>\<open>''\<close>.
\<close>

fun fieldRule :: "field \<Rightarrow> jsstring \<Rightarrow> jsstring \<Rightarrow> bool \<times> string" where
  "fieldRule fullname v pw =
     (if length (trim v) < 2 then (False, ''Full name must be at least 2 characters long.'')
      else if \<not> test nameRegex (trim v)
        then (False, ''Full name can only contain letters and spaces.'')
      else (True, ''''))"
| "fieldRule email v pw =
     (if trim v = [] then (False, ''Email address is required.'')
      else if \<not> test emailRegex v then (False, ''Please enter a valid email address.'')
      else (True, ''''))"
| "fieldRule password v pw =
     (if length v < 8 then (False, ''Password must be at least 8 characters long.'')
      else if \<not> test passwordRegex v
        then (False, ''Password must contain uppercase, lowercase, number, and special character.'')
      else (True, ''''))"
| "fieldRule confirmPassword v pw =
     (if v = [] then (False, ''Please confirm your password.'')
      else if v \<noteq> pw then (False, ''Passwords do not match.'')
      else (True, ''''))"
| "fieldRule age v pw =
     (if v = [] then (False, ''Age is required.'')
      else (case parseInt v of
              None \<Rightarrow> (False, ''Age must be between 13 and 120.'')
            | Some ageNum \<Rightarrow>
                if ageNum < 13 \<or> ageNum > 120 then (False, ''Age must be between 13 and 120.'')
                else (True, '''')))"
| "fieldRule phone v pw =
     (if trim v = [] then (True, '''')
      else if \<not> test phoneRegex v
        then (False, ''Please enter a valid phone number (e.g., (123) 456-7890).'')
      else (True, ''''))"

section \<open>The page\<close>

text \<open>
  What the validator reads and writes: the six input elements (their value, the default
  value that \<^verbatim>\<open>form.reset()\<close> restores, their class list), the error-message
  elements by id, the closure variable \<^verbatim>\<open>validationState\<close>, the submit button, the
  \<^verbatim>\<open>display\<close> style of the form and of the success message, the class list of the
  form and the pending \<^verbatim>\<open>setTimeout\<close> callbacks with their delay in milliseconds.
  The six inputs and the form are dereferenced when the listeners are attached; the
  button and the success message are taken to exist as well. An error-message element
  is looked up by id at each use, and \<^verbatim>\<open>getElementById\<close> gives \<^verbatim>\<open>null\<close> for an id
  the document does not have: \<open>errorText s i = None\<close>.
\<close>

datatype error = TypeError

datatype 'a completion = Normal 'a | Throw error

datatype callback = RemoveShake | ResetForm

text \<open>
  The two texts of the submit button: \<^verbatim>\<open>Submit Form\<close> and
  \<^verbatim>\<open>Complete Required Fields\<close>, each after a pictograph.
\<close>

datatype label = SubmitForm | CompleteRequiredFields

record page =
  fieldValue :: "field \<Rightarrow> jsstring"
  defaultValue :: "field \<Rightarrow> jsstring"
  classList :: "field \<Rightarrow> string set"
  errorText :: "string \<rightharpoonup> string"
  validationState :: "field \<Rightarrow> bool"
  submitDisabled :: bool
  submitText :: label
  formDisplay :: string
  successDisplay :: string
  formClassList :: "string set"
  timers :: "(nat \<times> callback) list"

text \<open>
  \<^verbatim>\<open>Object.keys(fields)\<close> and \<^verbatim>\<open>Object.keys(validationState)\<close>: both object
  literals list their keys in this order.
\<close>

definition fieldKeys :: "field list" where
  "fieldKeys = [fullname, email, password, confirmPassword, age, phone]"

fun fieldName :: "field \<Rightarrow> string" where
  "fieldName fullname = ''fullname''"
| "fieldName email = ''email''"
| "fieldName password = ''password''"
| "fieldName confirmPassword = ''confirmPassword''"
| "fieldName age = ''age''"
| "fieldName phone = ''phone''"

text \<open>The literal that \<^verbatim>\<open>validationState\<close> is initialised with.\<close>

fun initialValidationState :: "field \<Rightarrow> bool" where
  "initialValidationState fullname = False"
| "initialValidationState email = False"
| "initialValidationState password = False"
| "initialValidationState confirmPassword = False"
| "initialValidationState age = False"
| "initialValidationState phone = True"

definition mount :: "page \<Rightarrow> page" where
  "mount s = s\<lparr>validationState := initialValidationState\<rparr>"

text \<open>
  An assignment \<^verbatim>\<open>document.getElementById(i).textContent = t\<close>: a TypeError when the
  element is \<^verbatim>\<open>null\<close>.
\<close>

definition setTextContent :: "string \<Rightarrow> string \<Rightarrow> page \<Rightarrow> unit completion \<times> page" where
  "setTextContent i t s =
     (case errorText s i of
        None \<Rightarrow> (Throw TypeError, s)
      | Some old \<Rightarrow> (Normal (), s\<lparr>errorText := (errorText s)(i \<mapsto> t)\<rparr>))"

definition removeClasses :: "field \<Rightarrow> page \<Rightarrow> page" where
  \<comment> \<open>\<^verbatim>\<open>classList.remove('valid', 'invalid')\<close>\<close>
  "removeClasses f s = s\<lparr>classList := (classList s)(f := classList s f - {''valid'', ''invalid''})\<rparr>"

definition addClass :: "field \<Rightarrow> string \<Rightarrow> page \<Rightarrow> page" where
  "addClass f c s = s\<lparr>classList := (classList s)(f := insert c (classList s f))\<rparr>"

section \<open>validateField and the submit button\<close>

definition errorElementId :: "field \<Rightarrow> string" where
  "errorElementId f =
     (if f = confirmPassword then ''confirm-password-error'' else fieldName f @ ''-error'')"

definition updateFieldAppearance ::
  "field \<Rightarrow> string \<Rightarrow> bool \<Rightarrow> string \<Rightarrow> page \<Rightarrow> unit completion \<times> page" where
  "updateFieldAppearance f errorElement isValid errorMessage s =
     (let s1 = removeClasses f s in
      if trim (fieldValue s1 f) \<noteq> [] then
        if isValid then setTextContent errorElement '''' (addClass f ''valid'' s1)
        else setTextContent errorElement errorMessage (addClass f ''invalid'' s1)
      else setTextContent errorElement '''' s1)"

definition validateField :: "field \<Rightarrow> jsstring \<Rightarrow> page \<Rightarrow> bool completion \<times> page" where
  "validateField f v s =
     (case fieldRule f v (fieldValue s password) of
        (isValid, errorMessage) \<Rightarrow>
          (case updateFieldAppearance f (errorElementId f) isValid errorMessage s of
             (Throw e, s1) \<Rightarrow> (Throw e, s1)
           | (Normal u, s1) \<Rightarrow>
               (Normal isValid, s1\<lparr>validationState := (validationState s1)(f := isValid)\<rparr>)))"

definition requiredFields :: "field list" where
  "requiredFields = [fullname, email, password, confirmPassword, age]"

definition updateSubmitButton :: "page \<Rightarrow> page" where
  "updateSubmitButton s =
     (let allRequiredValid = list_all (validationState s) requiredFields in
      s\<lparr>submitDisabled := \<not> allRequiredValid,
        submitText := (if allRequiredValid then SubmitForm else CompleteRequiredFields)\<rparr>)"

section \<open>The listeners\<close>

text \<open>The \<^verbatim>\<open>input\<close> and the \<^verbatim>\<open>blur\<close> listener of a field have the same body.\<close>

definition inputListener :: "field \<Rightarrow> page \<Rightarrow> unit completion \<times> page" where
  "inputListener f s =
     (case validateField f (fieldValue s f) s of
        (Throw e, s1) \<Rightarrow> (Throw e, s1)
      | (Normal b, s1) \<Rightarrow> (Normal (), updateSubmitButton s1))"

definition blurListener :: "field \<Rightarrow> page \<Rightarrow> unit completion \<times> page" where
  "blurListener f s =
     (case validateField f (fieldValue s f) s of
        (Throw e, s1) \<Rightarrow> (Throw e, s1)
      | (Normal b, s1) \<Rightarrow> (Normal (), updateSubmitButton s1))"

text \<open>
  The \<^verbatim>\<open>forEach\<close> of the submit listener, with its local \<^verbatim>\<open>allValid\<close>; an exception
  of \<^verbatim>\<open>validateField\<close> ends the loop and the listener.
\<close>

fun validateAll :: "field list \<Rightarrow> bool \<Rightarrow> page \<Rightarrow> bool completion \<times> page" where
  "validateAll [] allValid s = (Normal allValid, s)"
| "validateAll (f # fs) allValid s =
     (case validateField f (fieldValue s f) s of
        (Throw e, s1) \<Rightarrow> (Throw e, s1)
      | (Normal isValid, s1) \<Rightarrow> validateAll fs (if \<not> isValid then False else allValid) s1)"

definition showSuccessMessage :: "page \<Rightarrow> page" where
  "showSuccessMessage s =
     s\<lparr>formDisplay := ''none'', successDisplay := ''block'',
       timers := timers s @ [(5000, ResetForm)]\<rparr>"

definition shakeForm :: "page \<Rightarrow> page" where
  \<comment> \<open>the \<^verbatim>\<open>else\<close> branch of the submit listener\<close>
  "shakeForm s =
     s\<lparr>formClassList := insert ''shake'' (formClassList s),
       timers := timers s @ [(500, RemoveShake)]\<rparr>"

definition submitListener :: "page \<Rightarrow> unit completion \<times> page" where
  "submitListener s =
     (case validateAll fieldKeys True s of
        (Throw e, s1) \<Rightarrow> (Throw e, s1)
      | (Normal allValid, s1) \<Rightarrow>
          (Normal (), if allValid then showSuccessMessage s1 else shakeForm s1))"

section \<open>The timer callbacks\<close>

definition removeShake :: "page \<Rightarrow> page" where
  "removeShake s = s\<lparr>formClassList := formClassList s - {''shake''}\<rparr>"

text \<open>One round of the \<^verbatim>\<open>forEach\<close> in the reset callback.\<close>

definition resetEntry :: "field \<Rightarrow> page \<Rightarrow> unit completion \<times> page" where
  "resetEntry f s =
     (let s1 = s\<lparr>validationState := (validationState s)(f := False)\<rparr>;
          s2 = removeClasses f s1
      in setTextContent (fieldName f @ ''-error'') '''' s2)"

fun resetEntries :: "field list \<Rightarrow> page \<Rightarrow> unit completion \<times> page" where
  "resetEntries [] s = (Normal (), s)"
| "resetEntries (f # fs) s =
     (case resetEntry f s of
        (Throw e, s1) \<Rightarrow> (Throw e, s1)
      | (Normal u, s1) \<Rightarrow> resetEntries fs s1)"

definition resetCallback :: "page \<Rightarrow> unit completion \<times> page" where
  "resetCallback s =
     (let s1 = s\<lparr>fieldValue := defaultValue s\<rparr>;
          s2 = s1\<lparr>formDisplay := ''block'', successDisplay := ''none''\<rparr>
      in case resetEntries fieldKeys s2 of
           (Throw e, s3) \<Rightarrow> (Throw e, s3)
         | (Normal u, s3) \<Rightarrow> (Normal (), updateSubmitButton s3))"

section \<open>Events\<close>

text \<open>
  The user types into a field (the browser stores the new value, then calls the
  \<^verbatim>\<open>input\<close> listener), leaves a field, submits the form, or a pending timer fires. The
  listeners run to completion one after the other; an exception that leaves a listener
  is reported by the browser and the page stays as the listener left it.
\<close>

datatype event = Input field jsstring | Blur field | Submit | Timeout callback

fun unschedule :: "callback \<Rightarrow> (nat \<times> callback) list \<Rightarrow> (nat \<times> callback) list" where
  "unschedule cb [] = []"
| "unschedule cb ((d, cb') # ts) = (if cb' = cb then ts else (d, cb') # unschedule cb ts)"

fun dispatch :: "event \<Rightarrow> page \<Rightarrow> unit completion \<times> page" where
  "dispatch (Input f v) s = inputListener f (s\<lparr>fieldValue := (fieldValue s)(f := v)\<rparr>)"
| "dispatch (Blur f) s = blurListener f s"
| "dispatch Submit s = submitListener s"
| "dispatch (Timeout cb) s =
     (if cb \<in> snd ` set (timers s) then
        (let s1 = s\<lparr>timers := unschedule cb (timers s)\<rparr> in
         case cb of RemoveShake \<Rightarrow> (Normal (), removeShake s1) | ResetForm \<Rightarrow> resetCallback s1)
      else (Normal (), s))"

fun run :: "event list \<Rightarrow> page \<Rightarrow> page" where
  "run [] s = s"
| "run (e # es) s = run es (snd (dispatch e s))"

subsection \<open>A document for concrete runs\<close>

text \<open>
  The markup is not part of \<^verbatim>\<open>script.js\<close>. This page has the six error-message
  elements under the ids that \<^verbatim>\<open>validateField\<close> looks up, empty inputs with empty
  default values, and the form shown.
\<close>

definition samplePage :: page where
  "samplePage =
     \<lparr>fieldValue = (\<lambda>f. []), defaultValue = (\<lambda>f. []), classList = (\<lambda>f. {}),
      errorText = map_of [(''fullname-error'', ''''), (''email-error'', ''''),
        (''password-error'', ''''), (''confirm-password-error'', ''''),
        (''age-error'', ''''), (''phone-error'', '''')],
      validationState = initialValidationState,
      submitDisabled = True, submitText = CompleteRequiredFields,
      formDisplay = ''block'', successDisplay = ''none'', formClassList = {}, timers = []\<rparr>"

text \<open>
  A user fills the five required fields with valid values, leaving the phone empty.
\<close>

definition validEntries :: "event list" where
  "validEntries = [Input fullname (js ''Jo''), Input email (js ''a@b.co''),
     Input password (js ''Abcd12!@''), Input confirmPassword (js ''Abcd12!@''),
     Input age (js ''30'')]"

definition hasErrorElements :: "page \<Rightarrow> bool" where
  "hasErrorElements s = list_all (\<lambda>f. errorText s (errorElementId f) \<noteq> None) fieldKeys"

text \<open>
  What \<^verbatim>\<open>validateField(f, fields[f].value)\<close> computes for the values the page holds
  now: the validity that the listeners store.
\<close>

definition freshValidity :: "page \<Rightarrow> field \<Rightarrow> bool" where
  "freshValidity s f = fst (fieldRule f (fieldValue s f) (fieldValue s password))"

text \<open>What an observer sees of the two branches of the submit listener.\<close>

definition accepted :: "page \<Rightarrow> page \<Rightarrow> bool" where
  "accepted s s' = (formDisplay s' = ''none'' \<and> successDisplay s' = ''block''
     \<and> timers s' = timers s @ [(5000, ResetForm)])"

definition rejected :: "page \<Rightarrow> page \<Rightarrow> bool" where
  "rejected s s' = (formClassList s' = insert ''shake'' (formClassList s)
     \<and> formDisplay s' = formDisplay s \<and> successDisplay s' = successDisplay s
     \<and> timers s' = timers s @ [(500, RemoveShake)])"

section \<open>What a call changes\<close>

lemma hasErrorElements_lookup:
  "hasErrorElements s \<Longrightarrow> errorText s (errorElementId f) \<noteq> None"
  by (cases f) (simp_all add: hasErrorElements_def fieldKeys_def)

lemma setTextContent_frame:
  "fieldValue (snd (setTextContent i t s)) = fieldValue s"
  "defaultValue (snd (setTextContent i t s)) = defaultValue s"
  "classList (snd (setTextContent i t s)) = classList s"
  "validationState (snd (setTextContent i t s)) = validationState s"
  "submitDisabled (snd (setTextContent i t s)) = submitDisabled s"
  "submitText (snd (setTextContent i t s)) = submitText s"
  "formDisplay (snd (setTextContent i t s)) = formDisplay s"
  "successDisplay (snd (setTextContent i t s)) = successDisplay s"
  "formClassList (snd (setTextContent i t s)) = formClassList s"
  "timers (snd (setTextContent i t s)) = timers s"
  by (simp_all add: setTextContent_def split: option.splits)

lemma setTextContent_result:
  "fst (setTextContent i t s) = (if errorText s i = None then Throw TypeError else Normal ())"
  "errorText (snd (setTextContent i t s)) =
     (if errorText s i = None then errorText s else (errorText s)(i \<mapsto> t))"
  by (simp_all add: setTextContent_def split: option.splits)

lemma setTextContent_present:
  "(errorText (snd (setTextContent i t s)) j = None) = (errorText s j = None)"
  by (simp add: setTextContent_def split: option.splits)

lemma updateFieldAppearance_frame:
  "fieldValue (snd (updateFieldAppearance f i b m s)) = fieldValue s"
  "defaultValue (snd (updateFieldAppearance f i b m s)) = defaultValue s"
  "validationState (snd (updateFieldAppearance f i b m s)) = validationState s"
  "submitDisabled (snd (updateFieldAppearance f i b m s)) = submitDisabled s"
  "submitText (snd (updateFieldAppearance f i b m s)) = submitText s"
  "formDisplay (snd (updateFieldAppearance f i b m s)) = formDisplay s"
  "successDisplay (snd (updateFieldAppearance f i b m s)) = successDisplay s"
  "formClassList (snd (updateFieldAppearance f i b m s)) = formClassList s"
  "timers (snd (updateFieldAppearance f i b m s)) = timers s"
  by (simp_all add: updateFieldAppearance_def Let_def setTextContent_frame removeClasses_def
      addClass_def)

lemma updateFieldAppearance_result:
  "fst (updateFieldAppearance f i b m s) =
     (if errorText s i = None then Throw TypeError else Normal ())"
  by (simp add: updateFieldAppearance_def Let_def setTextContent_result removeClasses_def
      addClass_def)

lemma updateFieldAppearance_present:
  "(errorText (snd (updateFieldAppearance f i b m s)) j = None) = (errorText s j = None)"
  by (simp add: updateFieldAppearance_def Let_def setTextContent_present removeClasses_def
      addClass_def)

lemma updateFieldAppearance_text:
  "errorText s i = Some old \<Longrightarrow>
   errorText (snd (updateFieldAppearance f i b m s)) i =
     Some (if trim (fieldValue s f) \<noteq> [] \<and> \<not> b then m else '''')"
  by (simp add: updateFieldAppearance_def Let_def setTextContent_result removeClasses_def
      addClass_def)

lemma validateField_unfold:
  "validateField f v s =
     (let r = fieldRule f v (fieldValue s password);
          u = updateFieldAppearance f (errorElementId f) (fst r) (snd r) s
      in if errorText s (errorElementId f) = None then (Throw TypeError, snd u)
         else (Normal (fst r), (snd u)\<lparr>validationState := (validationState s)(f := fst r)\<rparr>))"
proof -
  obtain b m where r: "fieldRule f v (fieldValue s password) = (b, m)"
    by (cases "fieldRule f v (fieldValue s password)")
  obtain c s1 where u: "updateFieldAppearance f (errorElementId f) b m s = (c, s1)"
    by (cases "updateFieldAppearance f (errorElementId f) b m s")
  have c: "c = (if errorText s (errorElementId f) = None then Throw TypeError else Normal ())"
    using updateFieldAppearance_result [of f "errorElementId f" b m s] u by simp
  have v: "validationState s1 = validationState s"
    using updateFieldAppearance_frame(3) [of f "errorElementId f" b m s] u by simp
  show ?thesis
    by (cases "errorText s (errorElementId f)") (simp_all add: validateField_def r u c v)
qed

lemma validateField_frame:
  "fieldValue (snd (validateField f v s)) = fieldValue s"
  "defaultValue (snd (validateField f v s)) = defaultValue s"
  "submitDisabled (snd (validateField f v s)) = submitDisabled s"
  "submitText (snd (validateField f v s)) = submitText s"
  "formDisplay (snd (validateField f v s)) = formDisplay s"
  "successDisplay (snd (validateField f v s)) = successDisplay s"
  "formClassList (snd (validateField f v s)) = formClassList s"
  "timers (snd (validateField f v s)) = timers s"
  by (simp_all add: validateField_unfold Let_def updateFieldAppearance_frame)

lemma validateField_present:
  "(errorText (snd (validateField f v s)) j = None) = (errorText s j = None)"
  by (simp add: validateField_unfold Let_def updateFieldAppearance_present)

lemma validateField_hasErrorElements:
  "hasErrorElements (snd (validateField f v s)) = hasErrorElements s"
  by (simp add: hasErrorElements_def validateField_present)

lemma validateField_Normal:
  assumes "errorText s (errorElementId f) = Some old"
  shows "fst (validateField f v s) = Normal (fst (fieldRule f v (fieldValue s password)))"
    and "validationState (snd (validateField f v s)) =
      (validationState s)(f := fst (fieldRule f v (fieldValue s password)))"
  using assms by (simp_all add: validateField_unfold Let_def)

lemma validateField_Throw:
  assumes "errorText s (errorElementId f) = None"
  shows "fst (validateField f v s) = Throw TypeError"
    and "validationState (snd (validateField f v s)) = validationState s"
  using assms by (simp_all add: validateField_unfold Let_def updateFieldAppearance_frame)

lemma freshValidity_validateField:
  "freshValidity (snd (validateField f v s)) = freshValidity s"
  by (simp add: freshValidity_def validateField_frame fun_eq_iff)

lemma validateAll_Normal:
  "hasErrorElements s \<Longrightarrow>
   fst (validateAll fs acc s) = Normal (acc \<and> list_all (freshValidity s) fs) \<and>
   validationState (snd (validateAll fs acc s)) =
     (\<lambda>f. if f \<in> set fs then freshValidity s f else validationState s f)"
proof (induction fs arbitrary: acc s)
  case Nil
  then show ?case by simp
next
  case (Cons f fs)
  let ?r = "validateField f (fieldValue s f) s"
  obtain old where el: "errorText s (errorElementId f) = Some old"
    using hasErrorElements_lookup [OF Cons.prems, of f] by auto
  have fstr: "fst ?r = Normal (freshValidity s f)"
    using validateField_Normal(1) [OF el] by (simp add: freshValidity_def)
  have vs: "validationState (snd ?r) = (validationState s)(f := freshValidity s f)"
    using validateField_Normal(2) [OF el] by (simp add: freshValidity_def)
  have h: "hasErrorElements (snd ?r)"
    using Cons.prems by (simp add: validateField_hasErrorElements)
  have step: "validateAll (f # fs) acc s =
      validateAll fs (if \<not> freshValidity s f then False else acc) (snd ?r)"
    using fstr by (cases ?r) simp
  show ?case
    unfolding step
    using Cons.IH [OF h, of "if \<not> freshValidity s f then False else acc"]
    by (auto simp: vs freshValidity_validateField fun_eq_iff)
qed

lemma validateAll_frame:
  "fieldValue (snd (validateAll fs acc s)) = fieldValue s \<and>
   defaultValue (snd (validateAll fs acc s)) = defaultValue s \<and>
   submitDisabled (snd (validateAll fs acc s)) = submitDisabled s \<and>
   submitText (snd (validateAll fs acc s)) = submitText s \<and>
   formDisplay (snd (validateAll fs acc s)) = formDisplay s \<and>
   successDisplay (snd (validateAll fs acc s)) = successDisplay s \<and>
   formClassList (snd (validateAll fs acc s)) = formClassList s \<and>
   timers (snd (validateAll fs acc s)) = timers s"
proof (induction fs arbitrary: acc s)
  case Nil
  then show ?case by simp
next
  case (Cons f fs)
  let ?r = "validateField f (fieldValue s f) s"
  show ?case
  proof (cases "fst ?r")
    case (Normal b)
    then have "validateAll (f # fs) acc s = validateAll fs (if \<not> b then False else acc) (snd ?r)"
      by (cases ?r) simp
    then show ?thesis
      using Cons.IH [of "if \<not> b then False else acc" "snd ?r"]
      by (simp add: validateField_frame)
  next
    case (Throw e)
    then have "validateAll (f # fs) acc s = (Throw e, snd ?r)"
      by (cases ?r) simp
    then show ?thesis by (simp add: validateField_frame)
  qed
qed

lemma validateField_text:
  assumes "errorText s (errorElementId f) = Some old"
  shows "errorText (snd (validateField f v s)) (errorElementId f) =
     Some (if trim (fieldValue s f) \<noteq> [] \<and> \<not> fst (fieldRule f v (fieldValue s password))
           then snd (fieldRule f v (fieldValue s password)) else '''')"
  using assms updateFieldAppearance_text [OF assms]
  by (simp add: validateField_unfold Let_def)

lemma fieldRule_message:
  "fst (fieldRule f v pw) = (snd (fieldRule f v pw) = '''')"
  by (cases f) (simp_all split: option.splits)

section \<open>Totality of validateField\<close>

text \<open>
  C7. For each of the six fields and every string, \<^verbatim>\<open>validateField\<close> returns: on a page
  that has the six error-message elements it completes normally with the validity that
  the rule of the field computes, stores that validity in \<^verbatim>\<open>validationState\<close>, and
  leaves the message in the error element (the rule's message when the field is not
  blank and invalid, the empty text otherwise). A failed validation is the value
  \<^verbatim>\<open>false\<close> with a non-empty message, a passed one \<^verbatim>\<open>true\<close> with the empty message;
  nothing is thrown. The rules and the matcher are total functions of the string.
\<close>

theorem validateField_total:
  assumes "hasErrorElements s"
  shows "fst (validateField f v s) = Normal (fst (fieldRule f v (fieldValue s password)))
    \<and> validationState (snd (validateField f v s)) =
        (validationState s)(f := fst (fieldRule f v (fieldValue s password)))
    \<and> errorText (snd (validateField f v s)) (errorElementId f) =
        Some (if trim (fieldValue s f) \<noteq> [] \<and> \<not> fst (fieldRule f v (fieldValue s password))
              then snd (fieldRule f v (fieldValue s password)) else '''')
    \<and> fst (fieldRule f v (fieldValue s password)) =
        (snd (fieldRule f v (fieldValue s password)) = '''')"
proof -
  obtain old where el: "errorText s (errorElementId f) = Some old"
    using hasErrorElements_lookup [OF assms, of f] by auto
  show ?thesis
    using validateField_Normal [OF el, of v] validateField_text [OF el, of v]
      fieldRule_message [of f v "fieldValue s password"]
    by simp
qed

theorem validateField_total_witness:
  "hasErrorElements (samplePage\<lparr>fieldValue := (fieldValue samplePage)(email := js ''a@b'')\<rparr>)
   \<and> fst (validateField email (js ''a@b'')
        (samplePage\<lparr>fieldValue := (fieldValue samplePage)(email := js ''a@b'')\<rparr>)) = Normal False
   \<and> errorText (snd (validateField email (js ''a@b'')
        (samplePage\<lparr>fieldValue := (fieldValue samplePage)(email := js ''a@b'')\<rparr>))) ''email-error''
      = Some ''Please enter a valid email address.''"
proof -
  let ?s = "samplePage\<lparr>fieldValue := (fieldValue samplePage)(email := js ''a@b'')\<rparr>"
  have h: "hasErrorElements ?s"
    by code_simp
  have r: "fieldRule email (js ''a@b'') (fieldValue ?s password)
      = (False, ''Please enter a valid email address.'')"
    by code_simp
  have t: "trim (fieldValue ?s email) \<noteq> []"
    by code_simp
  have i: "errorElementId email = ''email-error''"
    by code_simp
  show ?thesis
    using h validateField_total [OF h, of email "js ''a@b''"] r t i by simp
qed

section \<open>The password rule\<close>

lemma matchHere_AtLeast_Eol:
  "matchHere [AtLeast n P, Eol] s = (n \<le> length s \<and> list_all P s)"
proof (induction s arbitrary: n)
  case Nil
  then show ?case by (cases n) simp_all
next
  case (Cons c cs)
  then show ?case by (cases n) auto
qed

lemma matchHere_lookahead:
  "list_all isDot s \<Longrightarrow> matchHere [AtLeast 0 isDot, Cls P] s = list_ex P s"
  by (induction s) auto

lemma isPasswordChar_isDot: "isPasswordChar c \<Longrightarrow> isDot c"
  by (auto simp: isPasswordChar_def isDot_def isLineTerminator_def isUpper_def isLower_def
      isDigit_def isSymbol_def)

lemma test_passwordRegex:
  "test passwordRegex v = (list_ex isLower v \<and> list_ex isUpper v \<and> list_ex isDigit v
     \<and> list_ex isSymbol v \<and> 8 \<le> length v \<and> list_all isPasswordChar v)"
proof (cases "list_all isPasswordChar v")
  case True
  then have "list_all isDot v"
    by (simp add: list_all_iff isPasswordChar_isDot)
  then show ?thesis
    by (simp add: test_def passwordRegex_def matchHere_AtLeast_Eol matchHere_lookahead)
next
  case False
  then show ?thesis
    by (simp add: test_def passwordRegex_def matchHere_AtLeast_Eol)
qed

text \<open>
  C5, as amended. The password rule: a value shorter than 8 code units is invalid with
  the length message; a longer one is valid exactly when it has a lowercase letter, an
  uppercase letter, a digit and one of \<^verbatim>\<open>@$!%*?&\<close>, and every one of its characters
  is an ASCII letter, a digit or one of these symbols; otherwise it is invalid with the
  requirements message. \<^verbatim>\<open>Abc12345\<close> and \<^verbatim>\<open>short1!\<close> are invalid, \<^verbatim>\<open>Abcd12!@\<close> is
  valid.
\<close>

theorem password_rule:
  "fieldRule password v pw =
     (if length v < 8 then (False, ''Password must be at least 8 characters long.'')
      else if list_ex isLower v \<and> list_ex isUpper v \<and> list_ex isDigit v \<and> list_ex isSymbol v
              \<and> list_all isPasswordChar v
        then (True, '''')
      else (False, ''Password must contain uppercase, lowercase, number, and special character.''))
   \<and> \<not> fst (fieldRule password (js ''Abc12345'') pw)
   \<and> fst (fieldRule password (js ''Abcd12!@'') pw)
   \<and> \<not> fst (fieldRule password (js ''short1!'') pw)"
proof -
  have a: "\<not> test passwordRegex (js ''Abc12345'')"
    by code_simp
  have b: "test passwordRegex (js ''Abcd12!@'')"
    by code_simp
  have l: "length (js ''Abc12345'') = 8" "length (js ''Abcd12!@'') = 8" "length (js ''short1!'') = 7"
    by (simp_all add: js_def)
  show ?thesis
    using a b by (auto simp: test_passwordRegex l)
qed

text \<open>
  The claim C5 as it is written fails: \<^verbatim>\<open>Abcd12!@#\<close> has nine characters, a lowercase
  and an uppercase letter, a digit and a symbol of the set, and is rejected (for its
  \<^verbatim>\<open>#\<close>).
\<close>

theorem password_rule_counterexample:
  "8 \<le> length (js ''Abcd12!@#'') \<and> list_ex isLower (js ''Abcd12!@#'')
   \<and> list_ex isUpper (js ''Abcd12!@#'') \<and> list_ex isDigit (js ''Abcd12!@#'')
   \<and> list_ex isSymbol (js ''Abcd12!@#'')
   \<and> fieldRule password (js ''Abcd12!@#'') [] =
       (False, ''Password must contain uppercase, lowercase, number, and special character.'')"
  by code_simp

text \<open>
  C10. A password that \<^verbatim>\<open>validateField\<close> accepts consists only of ASCII letters, digits
  and the symbols \<^verbatim>\<open>@$!%*?&\<close>; so a value with any other character is rejected,
  whatever else it contains.
\<close>

theorem password_charset:
  assumes "fst (fieldRule password v pw)"
  shows "list_all isPasswordChar v"
  using assms by (simp add: test_passwordRegex split: if_splits)

theorem password_charset_witness:
  "fst (fieldRule password (js ''Abcd12!@'') []) \<and> list_all isPasswordChar (js ''Abcd12!@'')
   \<and> \<not> list_all isPasswordChar (js ''Abcd 12!@'') \<and> \<not> fst (fieldRule password (js ''Abcd 12!@'') [])
   \<and> \<not> list_all isPasswordChar (js ''Abcd12!@#'') \<and> \<not> fst (fieldRule password (js ''Abcd12!@#'') [])"
proof -
  have ok: "fst (fieldRule password (js ''Abcd12!@'') [])"
    by code_simp
  have sp: "\<not> list_all isPasswordChar (js ''Abcd 12!@'')"
    by code_simp
  have ha: "\<not> list_all isPasswordChar (js ''Abcd12!@#'')"
    by code_simp
  show ?thesis
    using ok sp ha password_charset [of "js ''Abcd12!@''" "[]"]
      password_charset [of "js ''Abcd 12!@''" "[]"] password_charset [of "js ''Abcd12!@#''" "[]"]
    by blast
qed

section \<open>The age rule\<close>

text \<open>
  C6. The age rule: a value is invalid exactly when it is empty, or \<^verbatim>\<open>parseInt\<close> gives
  NaN for it, or the parsed number is below 13 or above 120. \<^verbatim>\<open>13\<close> and \<^verbatim>\<open>120\<close> are
  valid, \<^verbatim>\<open>12\<close>, \<^verbatim>\<open>121\<close> and \<^verbatim>\<open>abc\<close> are invalid.
\<close>

theorem age_rule:
  "(\<not> fst (fieldRule age v pw)) =
     (v = [] \<or> parseInt v = None \<or> (\<exists>n. parseInt v = Some n \<and> (n < 13 \<or> 120 < n)))
   \<and> fst (fieldRule age (js ''13'') pw) \<and> fst (fieldRule age (js ''120'') pw)
   \<and> \<not> fst (fieldRule age (js ''12'') pw) \<and> \<not> fst (fieldRule age (js ''121'') pw)
   \<and> \<not> fst (fieldRule age (js ''abc'') pw)"
proof -
  have p: "parseInt (js ''13'') = Some 13" "parseInt (js ''120'') = Some 120"
    "parseInt (js ''12'') = Some 12" "parseInt (js ''121'') = Some 121"
    "parseInt (js ''abc'') = None"
    by code_simp+
  have e: "js ''13'' \<noteq> []" "js ''120'' \<noteq> []" "js ''12'' \<noteq> []" "js ''121'' \<noteq> []"
    "js ''abc'' \<noteq> []"
    by (simp_all add: js_def)
  have g: "(\<not> fst (fieldRule age v pw)) =
     (v = [] \<or> parseInt v = None \<or> (\<exists>n. parseInt v = Some n \<and> (n < 13 \<or> 120 < n)))"
    by (simp split: option.splits)
  show ?thesis
    using g by (simp add: p e)
qed

subsection \<open>Numeric prefixes\<close>

lemma isDigit_facts:
  assumes "isDigit c"
  shows "\<not> isSpace c" and "c \<noteq> 0x2D" and "c \<noteq> 0x2B" and "c \<noteq> 0x78" and "c \<noteq> 0x58"
  using assms by (auto simp: isDigit_def isSpace_def word_le_nat_alt)

lemma digitValue_digit:
  assumes "isDigit c"
  shows "digitValue c \<le> 9"
proof -
  have "uint c \<le> uint (0x39 :: cu)"
    using assms by (simp add: isDigit_def word_le_def)
  then show ?thesis
    using assms by (simp add: digitValue_def)
qed

lemma takeWhile_prefix:
  assumes "list_all P ds" and "case rest of [] \<Rightarrow> True | c # cs \<Rightarrow> \<not> P c"
  shows "takeWhile P (ds @ rest) = ds"
  using assms by (induction ds) (auto split: list.splits)

lemma parseInt_decimal_prefix:
  assumes ne: "ds \<noteq> []" and dig: "list_all isDigit ds"
    and rest: "case rest of [] \<Rightarrow> True | c # cs \<Rightarrow> \<not> isDigit c"
    and big: "10 \<le> radixValue 10 ds"
  shows "parseInt (ds @ rest) = Some (radixValue 10 ds)"
proof -
  obtain d ds' where ds: "ds = d # ds'"
    using ne by (cases ds) auto
  have d: "isDigit d"
    using dig ds by simp
  obtain b ds'' where ds': "ds' = b # ds''"
  proof (cases ds')
    case Nil
    then have "radixValue 10 ds = digitValue d"
      by (simp add: ds radixValue_def)
    then show ?thesis
      using digitValue_digit [OF d] big by simp
  next
    case (Cons b ds'')
    then show ?thesis by (rule that)
  qed
  have b: "isDigit b"
    using dig ds ds' by simp
  have tw: "takeWhile isDigit (d # b # ds'' @ rest) = d # b # ds''"
    using takeWhile_prefix [OF dig rest] by (simp add: ds ds')
  have rd: "isRadixDigit 10 = isDigit"
    by (simp add: fun_eq_iff isRadixDigit_def)
  show ?thesis
    using isDigit_facts [OF d] isDigit_facts [OF b]
    by (simp add: parseInt_def ds ds' rd Let_def tw del: takeWhile.simps)
qed

lemma parseInt_skips:
  assumes ws: "list_all isSpace ws" and sg: "sg = [] \<or> sg = [0x2B]" and d: "isDigit d"
  shows "parseInt (ws @ sg @ d # xs) = parseInt (d # xs)"
proof -
  have plus: "\<not> isSpace 0x2B"
    by (simp add: isSpace_def)
  have skip: "dropWhile isSpace (ws @ ys) = dropWhile isSpace ys" for ys
    using ws by (induction ws) simp_all
  show ?thesis
    using sg isDigit_facts [OF d] plus
    by (auto simp: parseInt_def skip Let_def)
qed

text \<open>
  C9. \<^verbatim>\<open>parseInt\<close> reads the leading digits and ignores what follows: a value that
  starts (after optional white space and an optional plus sign) with decimal digits
  whose number lies in 13..120, followed by nothing or by any character that is not a
  digit and then anything, is a valid age.
\<close>

theorem age_numeric_prefix:
  assumes "list_all isSpace ws" and "sg = [] \<or> sg = [0x2B]"
    and "ds \<noteq> []" and "list_all isDigit ds"
    and "13 \<le> radixValue 10 ds" and "radixValue 10 ds \<le> 120"
    and "case rest of [] \<Rightarrow> True | c # cs \<Rightarrow> \<not> isDigit c"
  shows "fieldRule age (ws @ sg @ ds @ rest) pw = (True, '''')"
proof -
  obtain d ds' where ds: "ds = d # ds'"
    using assms(3) by (cases ds) auto
  have d: "isDigit d"
    using assms(4) ds by simp
  have "parseInt (ds @ rest) = Some (radixValue 10 ds)"
    using assms by (intro parseInt_decimal_prefix) simp_all
  then have "parseInt (ws @ sg @ ds @ rest) = Some (radixValue 10 ds)"
    using parseInt_skips [OF assms(1,2) d, of "ds' @ rest"] by (simp add: ds)
  then show ?thesis
    using assms by simp
qed

theorem age_numeric_prefix_witness:
  "fieldRule age (js ''13abc'') [] = (True, '''') \<and> fieldRule age (js ''15.5'') [] = (True, '''')
   \<and> fieldRule age (js '' +42 years'') [] = (True, '''')
   \<and> radixValue 10 (js ''13'') = 13 \<and> radixValue 10 (js ''15'') = 15
   \<and> radixValue 10 (js ''42'') = 42"
proof -
  have v: "radixValue 10 (js ''13'') = 13" "radixValue 10 (js ''15'') = 15"
    "radixValue 10 (js ''42'') = 42"
    by code_simp+
  have d: "list_all isDigit (js ''13'')" "list_all isDigit (js ''15'')"
    "list_all isDigit (js ''42'')"
    by code_simp+
  have r: "case js ''abc'' of [] \<Rightarrow> True | c # cs \<Rightarrow> \<not> isDigit c"
    "case js ''.5'' of [] \<Rightarrow> True | c # cs \<Rightarrow> \<not> isDigit c"
    "case js '' years'' of [] \<Rightarrow> True | c # cs \<Rightarrow> \<not> isDigit c"
    by code_simp+
  have n: "js ''13'' \<noteq> []" "js ''15'' \<noteq> []" "js ''42'' \<noteq> []"
    by (simp_all add: js_def)
  have w: "list_all isSpace []" "list_all isSpace (js '' '')"
    by code_simp+
  have g: "[] = [] \<or> [] = [0x2B :: cu]" "js ''+'' = [] \<or> js ''+'' = [0x2B]"
    by (simp_all add: js_def)
  have s: "[] @ [] @ js ''13'' @ js ''abc'' = js ''13abc''"
    "[] @ [] @ js ''15'' @ js ''.5'' = js ''15.5''"
    "js '' '' @ js ''+'' @ js ''42'' @ js '' years'' = js '' +42 years''"
    by (simp_all add: js_def)
  have "fieldRule age ([] @ [] @ js ''13'' @ js ''abc'') [] = (True, '''')"
    using v by (intro age_numeric_prefix w g n d r) simp_all
  moreover have "fieldRule age ([] @ [] @ js ''15'' @ js ''.5'') [] = (True, '''')"
    using v by (intro age_numeric_prefix w g n d r) simp_all
  moreover have "fieldRule age (js '' '' @ js ''+'' @ js ''42'' @ js '' years'') [] = (True, '''')"
    using v by (intro age_numeric_prefix w g n d r) simp_all
  ultimately show ?thesis
    using v by (simp only: s)
qed

section \<open>The listeners, unfolded\<close>

lemma set_fieldKeys: "f \<in> set fieldKeys"
  by (cases f) (simp_all add: fieldKeys_def)

lemma validateField_other:
  "g \<noteq> f \<Longrightarrow> validationState (snd (validateField f v s)) g = validationState s g"
  by (simp add: validateField_unfold Let_def updateFieldAppearance_frame)

lemma updateSubmitButton_frame:
  "validationState (updateSubmitButton s) = validationState s"
  "fieldValue (updateSubmitButton s) = fieldValue s"
  "errorText (updateSubmitButton s) = errorText s"
  by (simp_all add: updateSubmitButton_def Let_def)

lemma inputListener_unfold:
  "inputListener f s =
     (if errorText s (errorElementId f) = None
      then (Throw TypeError, snd (validateField f (fieldValue s f) s))
      else (Normal (), updateSubmitButton (snd (validateField f (fieldValue s f) s))))"
  by (simp add: inputListener_def validateField_unfold Let_def)

lemma blurListener_unfold:
  "blurListener f s =
     (if errorText s (errorElementId f) = None
      then (Throw TypeError, snd (validateField f (fieldValue s f) s))
      else (Normal (), updateSubmitButton (snd (validateField f (fieldValue s f) s))))"
  by (simp add: blurListener_def validateField_unfold Let_def)

lemma submitListener_unfold:
  assumes "hasErrorElements s"
  shows "submitListener s =
     (Normal (), if list_all (freshValidity s) fieldKeys
                 then showSuccessMessage (snd (validateAll fieldKeys True s))
                 else shakeForm (snd (validateAll fieldKeys True s)))"
    and "validationState (snd (validateAll fieldKeys True s)) = freshValidity s"
proof -
  have n: "fst (validateAll fieldKeys True s) = Normal (list_all (freshValidity s) fieldKeys)"
    using validateAll_Normal [OF assms, of fieldKeys True] by simp
  show "submitListener s =
     (Normal (), if list_all (freshValidity s) fieldKeys
                 then showSuccessMessage (snd (validateAll fieldKeys True s))
                 else shakeForm (snd (validateAll fieldKeys True s)))"
    using n by (cases "validateAll fieldKeys True s") (simp add: submitListener_def)
  show "validationState (snd (validateAll fieldKeys True s)) = freshValidity s"
    using validateAll_Normal [OF assms, of fieldKeys True] by (simp add: set_fieldKeys)
qed

lemma submitListener_outcome:
  assumes "hasErrorElements s"
  shows "validationState (snd (submitListener s)) = freshValidity s"
    and "accepted s (snd (submitListener s)) = list_all (freshValidity s) fieldKeys"
    and "rejected s (snd (submitListener s)) = (\<not> list_all (freshValidity s) fieldKeys)"
    and "fieldValue (snd (submitListener s)) = fieldValue s"
    and "submitDisabled (snd (submitListener s)) = submitDisabled s"
    and "submitText (snd (submitListener s)) = submitText s"
  using validateAll_frame [of fieldKeys True s]
  by (simp_all add: submitListener_unfold [OF assms] accepted_def rejected_def
      showSuccessMessage_def shakeForm_def)

section \<open>Running the listeners on a page\<close>

lemma run_append: "run (xs @ ys) s = run ys (run xs s)"
  by (induction xs arbitrary: s) simp_all

lemma validateAll_present:
  "(errorText (snd (validateAll fs acc s)) i = None) = (errorText s i = None)"
proof (induction fs arbitrary: acc s)
  case Nil
  then show ?case by simp
next
  case (Cons f fs)
  let ?r = "validateField f (fieldValue s f) s"
  show ?case
  proof (cases "fst ?r")
    case (Normal b)
    then have "validateAll (f # fs) acc s = validateAll fs (if \<not> b then False else acc) (snd ?r)"
      by (cases ?r) simp
    then show ?thesis
      using Cons.IH [of "if \<not> b then False else acc" "snd ?r"]
      by (simp add: validateField_present)
  next
    case (Throw e)
    then have "validateAll (f # fs) acc s = (Throw e, snd ?r)"
      by (cases ?r) simp
    then show ?thesis by (simp add: validateField_present)
  qed
qed

lemma dispatch_Input:
  assumes "hasErrorElements s"
  shows "fst (dispatch (Input f v) s) = Normal ()"
    and "fieldValue (snd (dispatch (Input f v) s)) = (fieldValue s)(f := v)"
    and "validationState (snd (dispatch (Input f v) s)) =
      (validationState s)(f := fst (fieldRule f v (((fieldValue s)(f := v)) password)))"
    and "submitDisabled (snd (dispatch (Input f v) s)) =
      (\<not> list_all ((validationState s)(f := fst (fieldRule f v (((fieldValue s)(f := v)) password))))
          requiredFields)"
    and "timers (snd (dispatch (Input f v) s)) = timers s"
    and "formDisplay (snd (dispatch (Input f v) s)) = formDisplay s"
    and "successDisplay (snd (dispatch (Input f v) s)) = successDisplay s"
    and "formClassList (snd (dispatch (Input f v) s)) = formClassList s"
    and "hasErrorElements (snd (dispatch (Input f v) s))"
proof -
  let ?s = "s\<lparr>fieldValue := (fieldValue s)(f := v)\<rparr>"
  have h: "hasErrorElements ?s"
    using assms by (simp add: hasErrorElements_def)
  obtain old where el: "errorText ?s (errorElementId f) = Some old"
    using hasErrorElements_lookup [OF h, of f] by auto
  have d: "inputListener f ?s = (Normal (), updateSubmitButton (snd (validateField f v ?s)))"
    using el by (simp add: inputListener_unfold)
  show "fst (dispatch (Input f v) s) = Normal ()"
    by (simp add: d)
  show "fieldValue (snd (dispatch (Input f v) s)) = (fieldValue s)(f := v)"
    by (simp add: d updateSubmitButton_frame validateField_frame)
  show vs: "validationState (snd (dispatch (Input f v) s)) =
      (validationState s)(f := fst (fieldRule f v (((fieldValue s)(f := v)) password)))"
    using validateField_Normal(2) [OF el, of v] by (simp add: d updateSubmitButton_frame)
  show "submitDisabled (snd (dispatch (Input f v) s)) =
      (\<not> list_all ((validationState s)(f := fst (fieldRule f v (((fieldValue s)(f := v)) password))))
          requiredFields)"
    using validateField_Normal(2) [OF el, of v] by (simp add: d updateSubmitButton_def Let_def)
  show "timers (snd (dispatch (Input f v) s)) = timers s"
    "formDisplay (snd (dispatch (Input f v) s)) = formDisplay s"
    "successDisplay (snd (dispatch (Input f v) s)) = successDisplay s"
    "formClassList (snd (dispatch (Input f v) s)) = formClassList s"
    by (simp_all add: d updateSubmitButton_def Let_def validateField_frame)
  show "hasErrorElements (snd (dispatch (Input f v) s))"
    using h
    by (simp add: d hasErrorElements_def updateSubmitButton_frame validateField_present
        del: not_None_eq)
qed

lemma dispatch_Input_present:
  "(errorText (snd (dispatch (Input f v) s)) i = None) = (errorText s i = None)"
  by (simp add: inputListener_unfold updateSubmitButton_frame validateField_present)

lemma dispatch_Submit:
  assumes "hasErrorElements s"
  shows "fst (dispatch Submit s) = Normal ()"
    and "validationState (snd (dispatch Submit s)) = freshValidity s"
    and "fieldValue (snd (dispatch Submit s)) = fieldValue s"
    and "submitDisabled (snd (dispatch Submit s)) = submitDisabled s"
    and "timers (snd (dispatch Submit s)) =
      timers s @ [if list_all (freshValidity s) fieldKeys then (5000, ResetForm)
                  else (500, RemoveShake)]"
    and "formDisplay (snd (dispatch Submit s)) =
      (if list_all (freshValidity s) fieldKeys then ''none'' else formDisplay s)"
    and "successDisplay (snd (dispatch Submit s)) =
      (if list_all (freshValidity s) fieldKeys then ''block'' else successDisplay s)"
    and "formClassList (snd (dispatch Submit s)) =
      (if list_all (freshValidity s) fieldKeys then formClassList s
       else insert ''shake'' (formClassList s))"
    and "hasErrorElements (snd (dispatch Submit s))"
  using validateAll_frame [of fieldKeys True s] assms
  by (simp_all add: submitListener_unfold [OF assms] showSuccessMessage_def shakeForm_def
      hasErrorElements_def validateAll_present del: not_None_eq)

lemma dispatch_Submit_present:
  "(errorText (snd (dispatch Submit s)) i = None) = (errorText s i = None)"
proof -
  have "errorText (snd (submitListener s)) = errorText (snd (validateAll fieldKeys True s))"
    by (cases "validateAll fieldKeys True s"; cases "fst (validateAll fieldKeys True s)")
      (simp_all add: submitListener_def showSuccessMessage_def shakeForm_def)
  then show ?thesis
    by (simp add: validateAll_present)
qed

lemma samplePage_mount:
  "fieldValue (mount samplePage) = (\<lambda>f. [])"
  "validationState (mount samplePage) = initialValidationState"
  "submitDisabled (mount samplePage)"
  "timers (mount samplePage) = []"
  "formDisplay (mount samplePage) = ''block''"
  "successDisplay (mount samplePage) = ''none''"
  "formClassList (mount samplePage) = {}"
  "hasErrorElements (mount samplePage)"
  "errorText (mount samplePage) ''confirmPassword-error'' = None"
  "errorText (mount samplePage) ''fullname-error'' \<noteq> None"
  "errorText (mount samplePage) ''email-error'' \<noteq> None"
  "errorText (mount samplePage) ''password-error'' \<noteq> None"
  by (simp_all add: mount_def samplePage_def hasErrorElements_def fieldKeys_def
      errorElementId_def)

lemma sample_rules:
  "fieldRule fullname (js ''Jo'') pw = (True, '''')"
  "fieldRule email (js ''a@b.co'') pw = (True, '''')"
  "fieldRule password (js ''Abcd12!@'') pw = (True, '''')"
  "fieldRule password (js ''Xyzw12!@'') pw = (True, '''')"
  "fieldRule age (js ''30'') pw = (True, '''')"
  "fieldRule phone [] pw = (True, '''')"
  "fst (fieldRule phone (js ''12345'') pw) = False"
  by code_simp+

lemma sample_strings:
  "js ''Abcd12!@'' \<noteq> []" "js ''Xyzw12!@'' \<noteq> []"
  "js ''Abcd12!@'' \<noteq> js ''Xyzw12!@''" "js ''Xyzw12!@'' \<noteq> js ''Abcd12!@''"
  by code_simp+

lemma dispatch_defaultValue:
  "defaultValue (snd (dispatch (Input f v) s)) = defaultValue s"
  "defaultValue (snd (dispatch Submit s)) = defaultValue s"
proof -
  show "defaultValue (snd (dispatch (Input f v) s)) = defaultValue s"
    by (simp add: inputListener_unfold updateSubmitButton_def Let_def validateField_frame)
  have "defaultValue (snd (submitListener s)) = defaultValue (snd (validateAll fieldKeys True s))"
    by (cases "validateAll fieldKeys True s"; cases "fst (validateAll fieldKeys True s)")
      (simp_all add: submitListener_def showSuccessMessage_def shakeForm_def)
  then show "defaultValue (snd (dispatch Submit s)) = defaultValue s"
    using validateAll_frame [of fieldKeys True s] by simp
qed

lemma samplePage_defaultValue: "defaultValue (mount samplePage) = (\<lambda>f. [])"
  by (simp add: mount_def samplePage_def)

lemma confirm_rule: "fst (fieldRule confirmPassword v pw) = (v \<noteq> [] \<and> v = pw)"
  by simp

lemmas run_simps = confirm_rule dispatch_defaultValue samplePage_defaultValue run_append validEntries_def dispatch_Input dispatch_Input_present
  dispatch_Submit dispatch_Submit_present samplePage_mount sample_rules sample_strings
  freshValidity_def fieldKeys_def requiredFields_def accepted_def rejected_def

section \<open>Submission gating\<close>

text \<open>
  C1, as amended. The submit button is enabled exactly when the five required fields
  have stored validity true, and the stored validity of the phone has no part in it. The
  submit listener revalidates all six fields, stores the results, and accepts (shows the
  success message and schedules the reset) exactly when all six, the phone included, are
  valid; it rejects (shakes the form) otherwise. The phone is valid when it is blank or
  matches the phone pattern, so a blank phone never blocks a submission and a non-blank,
  ill-formed one does.
\<close>

theorem submission_gating:
  "submitDisabled (updateSubmitButton s) = (\<not> list_all (validationState s) requiredFields)
   \<and> submitText (updateSubmitButton s) =
       (if list_all (validationState s) requiredFields then SubmitForm
        else CompleteRequiredFields)
   \<and> submitDisabled (updateSubmitButton (s\<lparr>validationState := (validationState s)(phone := b)\<rparr>))
       = submitDisabled (updateSubmitButton s)
   \<and> (hasErrorElements s \<longrightarrow>
        fst (submitListener s) = Normal ()
        \<and> validationState (snd (submitListener s)) = freshValidity s
        \<and> accepted s (snd (submitListener s)) =
            list_all (validationState (snd (submitListener s))) fieldKeys
        \<and> rejected s (snd (submitListener s)) =
            (\<not> list_all (validationState (snd (submitListener s))) fieldKeys))
   \<and> freshValidity s phone =
       (trim (fieldValue s phone) = [] \<or> test phoneRegex (fieldValue s phone))"
proof -
  have button: "submitDisabled (updateSubmitButton s) =
      (\<not> list_all (validationState s) requiredFields)"
    "submitText (updateSubmitButton s) =
       (if list_all (validationState s) requiredFields then SubmitForm
        else CompleteRequiredFields)"
    by (simp_all add: updateSubmitButton_def Let_def)
  have indep: "submitDisabled (updateSubmitButton
        (s\<lparr>validationState := (validationState s)(phone := b)\<rparr>))
      = submitDisabled (updateSubmitButton s)"
    by (simp add: updateSubmitButton_def Let_def requiredFields_def)
  have submit: "fst (submitListener s) = Normal ()
        \<and> validationState (snd (submitListener s)) = freshValidity s
        \<and> accepted s (snd (submitListener s)) =
            list_all (validationState (snd (submitListener s))) fieldKeys
        \<and> rejected s (snd (submitListener s)) =
            (\<not> list_all (validationState (snd (submitListener s))) fieldKeys)"
    if h: "hasErrorElements s"
    using submitListener_outcome [OF h] by (simp add: submitListener_unfold(1) [OF h])
  have ph: "freshValidity s phone =
       (trim (fieldValue s phone) = [] \<or> test phoneRegex (fieldValue s phone))"
    by (simp add: freshValidity_def)
  show ?thesis
    using button indep submit ph by blast
qed

theorem submission_gating_witness:
  "hasErrorElements (run validEntries (mount samplePage))
   \<and> \<not> submitDisabled (updateSubmitButton (run validEntries (mount samplePage)))
   \<and> list_all (validationState (snd (submitListener (run validEntries (mount samplePage)))))
       fieldKeys
   \<and> accepted (run validEntries (mount samplePage))
       (snd (submitListener (run validEntries (mount samplePage))))"
proof -
  have h: "hasErrorElements (run validEntries (mount samplePage))"
    by (simp add: run_simps del: dispatch.simps fieldRule.simps)
  have r: "list_all (validationState (run validEntries (mount samplePage))) requiredFields"
    by (simp add: run_simps del: dispatch.simps fieldRule.simps)
  have f: "list_all (freshValidity (run validEntries (mount samplePage))) fieldKeys"
    by (simp add: run_simps del: dispatch.simps fieldRule.simps)
  show ?thesis
    using h r f submission_gating [of "run validEntries (mount samplePage)" True]
    by simp
qed

text \<open>
  The claim C1 as it is written fails for the submit listener: with the five required
  fields valid and \<^verbatim>\<open>12345\<close> in the phone field, every required field has validity
  true before and after the submit event and the button is enabled, yet the listener
  rejects the submission.
\<close>

theorem submission_gating_counterexample:
  "list_all (validationState (run (validEntries @ [Input phone (js ''12345'')])
       (mount samplePage))) requiredFields
   \<and> \<not> submitDisabled (run (validEntries @ [Input phone (js ''12345'')]) (mount samplePage))
   \<and> list_all (validationState (run (validEntries @ [Input phone (js ''12345''), Submit])
       (mount samplePage))) requiredFields
   \<and> rejected (run (validEntries @ [Input phone (js ''12345'')]) (mount samplePage))
       (run (validEntries @ [Input phone (js ''12345''), Submit]) (mount samplePage))
   \<and> \<not> accepted (run (validEntries @ [Input phone (js ''12345'')]) (mount samplePage))
       (run (validEntries @ [Input phone (js ''12345''), Submit]) (mount samplePage))"
  by (simp add: run_simps del: dispatch.simps fieldRule.simps)

section \<open>Rejection by the submit listener\<close>

text \<open>
  C2, as amended. When the submit listener finds one of the six fields invalid, it
  shakes the form and schedules the end of the shake, and it has stored the freshly
  computed validity of every field in \<^verbatim>\<open>validationState\<close>: an entry changes exactly
  when the stored validity was stale. Field values and the submit button are left as
  they were.
\<close>

theorem submit_rejection:
  assumes "hasErrorElements s" and "\<not> list_all (freshValidity s) fieldKeys"
  shows "fst (submitListener s) = Normal ()
    \<and> rejected s (snd (submitListener s))
    \<and> validationState (snd (submitListener s)) f = freshValidity s f
    \<and> (validationState (snd (submitListener s)) f \<noteq> validationState s f) =
        (validationState s f \<noteq> freshValidity s f)
    \<and> fieldValue (snd (submitListener s)) = fieldValue s
    \<and> submitDisabled (snd (submitListener s)) = submitDisabled s
    \<and> submitText (snd (submitListener s)) = submitText s"
  using submitListener_outcome [OF assms(1)] assms(2)
  by (auto simp: submitListener_unfold(1) [OF assms(1)])

theorem submit_rejection_witness:
  "hasErrorElements (run (validEntries @ [Input password (js ''Xyzw12!@'')]) (mount samplePage))
   \<and> \<not> list_all
       (freshValidity (run (validEntries @ [Input password (js ''Xyzw12!@'')]) (mount samplePage)))
       fieldKeys
   \<and> rejected (run (validEntries @ [Input password (js ''Xyzw12!@'')]) (mount samplePage))
       (snd (submitListener
         (run (validEntries @ [Input password (js ''Xyzw12!@'')]) (mount samplePage))))
   \<and> validationState (snd (submitListener
         (run (validEntries @ [Input password (js ''Xyzw12!@'')]) (mount samplePage))))
       confirmPassword
     \<noteq> validationState (run (validEntries @ [Input password (js ''Xyzw12!@'')]) (mount samplePage))
       confirmPassword
   \<and> validationState (snd (submitListener
         (run (validEntries @ [Input password (js ''Xyzw12!@'')]) (mount samplePage))))
       fullname
     = validationState (run (validEntries @ [Input password (js ''Xyzw12!@'')]) (mount samplePage))
       fullname"
proof -
  let ?s = "run (validEntries @ [Input password (js ''Xyzw12!@'')]) (mount samplePage)"
  have h: "hasErrorElements ?s"
    by (simp add: run_simps del: dispatch.simps fieldRule.simps)
  have n: "\<not> list_all (freshValidity ?s) fieldKeys"
    by (simp add: run_simps del: dispatch.simps fieldRule.simps)
  have c: "validationState ?s confirmPassword \<noteq> freshValidity ?s confirmPassword"
    by (simp add: run_simps del: dispatch.simps fieldRule.simps)
  have v: "validationState ?s fullname = freshValidity ?s fullname"
    by (simp add: run_simps del: dispatch.simps fieldRule.simps)
  show ?thesis
    using h n c v submit_rejection [OF h n, of confirmPassword]
      submit_rejection [OF h n, of fullname]
    by simp
qed

text \<open>
  The claim C2 as it is written fails: after the required fields are filled and the
  password is then changed to another valid password, the stored validity of the
  confirmation is still true. The button is enabled; the submit event finds the
  confirmation invalid, rejects, and the stored validity of the confirmation has become
  false.
\<close>

theorem submit_rejection_counterexample:
  "validationState (run (validEntries @ [Input password (js ''Xyzw12!@'')]) (mount samplePage))
     confirmPassword
   \<and> \<not> submitDisabled (run (validEntries @ [Input password (js ''Xyzw12!@'')]) (mount samplePage))
   \<and> \<not> freshValidity (run (validEntries @ [Input password (js ''Xyzw12!@'')]) (mount samplePage))
       confirmPassword
   \<and> rejected (run (validEntries @ [Input password (js ''Xyzw12!@'')]) (mount samplePage))
       (run (validEntries @ [Input password (js ''Xyzw12!@''), Submit]) (mount samplePage))
   \<and> \<not> validationState
       (run (validEntries @ [Input password (js ''Xyzw12!@''), Submit]) (mount samplePage))
       confirmPassword"
  by (simp add: run_simps del: dispatch.simps fieldRule.simps)

section \<open>The confirmation of the password\<close>

lemma listener_own_entry:
  assumes "hasErrorElements s"
  shows "validationState (snd (inputListener f s)) f = freshValidity s f"
    and "validationState (snd (blurListener f s)) f = freshValidity s f"
proof -
  obtain old where el: "errorText s (errorElementId f) = Some old"
    using hasErrorElements_lookup [OF assms, of f] by auto
  show "validationState (snd (inputListener f s)) f = freshValidity s f"
    using validateField_Normal(2) [OF el, of "fieldValue s f"]
    by (simp add: inputListener_unfold el updateSubmitButton_frame freshValidity_def)
  show "validationState (snd (blurListener f s)) f = freshValidity s f"
    using validateField_Normal(2) [OF el, of "fieldValue s f"]
    by (simp add: blurListener_unfold el updateSubmitButton_frame freshValidity_def)
qed

lemma listener_other_entry:
  assumes "g \<noteq> f"
  shows "validationState (snd (inputListener f s)) g = validationState s g"
    and "validationState (snd (blurListener f s)) g = validationState s g"
  using assms
  by (simp_all add: inputListener_unfold blurListener_unfold updateSubmitButton_frame
      validateField_other)

text \<open>
  C4, as amended. The confirmation is valid exactly when it is non-empty and equal to
  the current value of the password field. Its stored validity is computed anew by the
  \<^verbatim>\<open>input\<close> and \<^verbatim>\<open>blur\<close> listeners of the confirmation field itself and by the submit
  listener, and after each of these it reflects the current pair of values. The
  listeners of every other field, the password field among them, leave the stored
  validity of the confirmation as it was.
\<close>

theorem confirm_password_rule:
  "fst (fieldRule confirmPassword v pw) = (v \<noteq> [] \<and> v = pw)
   \<and> (hasErrorElements s \<longrightarrow>
        validationState (snd (dispatch (Input confirmPassword v) s)) confirmPassword
          = (v \<noteq> [] \<and> v = fieldValue s password)
        \<and> validationState (snd (dispatch (Blur confirmPassword) s)) confirmPassword
          = (fieldValue s confirmPassword \<noteq> [] \<and> fieldValue s confirmPassword = fieldValue s password)
        \<and> validationState (snd (dispatch Submit s)) confirmPassword
          = (fieldValue s confirmPassword \<noteq> [] \<and> fieldValue s confirmPassword = fieldValue s password))
   \<and> (f \<noteq> confirmPassword \<longrightarrow>
        validationState (snd (dispatch (Input f v) s)) confirmPassword
          = validationState s confirmPassword
        \<and> validationState (snd (dispatch (Blur f) s)) confirmPassword
          = validationState s confirmPassword)"
proof -
  have rule: "fst (fieldRule confirmPassword v pw) = (v \<noteq> [] \<and> v = pw)"
    by simp
  have own: "validationState (snd (dispatch (Input confirmPassword v) s)) confirmPassword
          = (v \<noteq> [] \<and> v = fieldValue s password)
        \<and> validationState (snd (dispatch (Blur confirmPassword) s)) confirmPassword
          = (fieldValue s confirmPassword \<noteq> [] \<and> fieldValue s confirmPassword = fieldValue s password)
        \<and> validationState (snd (dispatch Submit s)) confirmPassword
          = (fieldValue s confirmPassword \<noteq> [] \<and> fieldValue s confirmPassword = fieldValue s password)"
    if h: "hasErrorElements s"
  proof -
    let ?s = "s\<lparr>fieldValue := (fieldValue s)(confirmPassword := v)\<rparr>"
    have h': "hasErrorElements ?s"
      using h by (simp add: hasErrorElements_def)
    show ?thesis
      using listener_own_entry(1) [OF h', of confirmPassword]
        listener_own_entry(2) [OF h, of confirmPassword] submitListener_outcome(1) [OF h]
      by (simp add: freshValidity_def)
  qed
  have other: "validationState (snd (dispatch (Input f v) s)) confirmPassword
          = validationState s confirmPassword
        \<and> validationState (snd (dispatch (Blur f) s)) confirmPassword
          = validationState s confirmPassword"
    if "f \<noteq> confirmPassword"
    using that listener_other_entry [of confirmPassword f] by simp
  show ?thesis
    using rule own other by blast
qed

theorem confirm_password_rule_witness:
  "hasErrorElements (run validEntries (mount samplePage))
   \<and> password \<noteq> confirmPassword
   \<and> \<not> validationState (snd (dispatch (Input confirmPassword (js ''Xyzw12!@''))
         (run validEntries (mount samplePage)))) confirmPassword
   \<and> validationState (snd (dispatch (Input password (js ''Xyzw12!@''))
         (run validEntries (mount samplePage)))) confirmPassword
   \<and> \<not> validationState (snd (dispatch Submit (snd (dispatch (Input password (js ''Xyzw12!@''))
         (run validEntries (mount samplePage)))))) confirmPassword"
proof -
  let ?s = "run validEntries (mount samplePage)"
  let ?t = "snd (dispatch (Input password (js ''Xyzw12!@'')) ?s)"
  have h: "hasErrorElements ?s"
    by (simp add: run_simps del: dispatch.simps fieldRule.simps)
  have h': "hasErrorElements ?t"
    by (simp add: run_simps del: dispatch.simps fieldRule.simps)
  have p: "fieldValue ?s password = js ''Abcd12!@''" "validationState ?s confirmPassword"
    by (simp_all add: run_simps del: dispatch.simps fieldRule.simps)
  have q: "fieldValue ?t password = js ''Xyzw12!@''" "fieldValue ?t confirmPassword = js ''Abcd12!@''"
    by (simp_all add: run_simps del: dispatch.simps fieldRule.simps)
  show ?thesis
    using h h' p q sample_strings
      confirm_password_rule [of "js ''Xyzw12!@''" "[]" ?s password]
      confirm_password_rule [of "js ''Xyzw12!@''" "[]" ?s confirmPassword]
      confirm_password_rule [of "js ''Xyzw12!@''" "[]" ?t password]
    by (simp del: dispatch.simps)
qed

text \<open>
  The claim C4 as it is written fails: a change of the password field does not
  recompute the stored validity of the confirmation. After the password and an equal
  confirmation are typed and the password is then changed, the stored validity of the
  confirmation is still true although the two values differ.
\<close>

theorem confirm_password_rule_counterexample:
  "validationState
     (run [Input password (js ''Abcd12!@''), Input confirmPassword (js ''Abcd12!@''),
           Input password (js ''Xyzw12!@'')] (mount samplePage)) confirmPassword
   \<and> fieldValue
       (run [Input password (js ''Abcd12!@''), Input confirmPassword (js ''Abcd12!@''),
             Input password (js ''Xyzw12!@'')] (mount samplePage)) confirmPassword
     \<noteq> fieldValue
       (run [Input password (js ''Abcd12!@''), Input confirmPassword (js ''Abcd12!@''),
             Input password (js ''Xyzw12!@'')] (mount samplePage)) password
   \<and> \<not> fst (fieldRule confirmPassword (js ''Abcd12!@'') (js ''Xyzw12!@''))"
  by (simp add: run_simps del: dispatch.simps fieldRule.simps)

section \<open>The delayed reset\<close>

lemma resetCallback_fault:
  assumes "errorText s ''confirmPassword-error'' = None"
    and "errorText s ''fullname-error'' \<noteq> None"
    and "errorText s ''email-error'' \<noteq> None"
    and "errorText s ''password-error'' \<noteq> None"
  shows "resetCallback s =
    (Throw TypeError,
     s\<lparr>fieldValue := defaultValue s, formDisplay := ''block'', successDisplay := ''none'',
       validationState := (validationState s)(fullname := False, email := False,
         password := False, confirmPassword := False),
       classList := (classList s)
         (fullname := classList s fullname - {''valid'', ''invalid''},
          email := classList s email - {''valid'', ''invalid''},
          password := classList s password - {''valid'', ''invalid''},
          confirmPassword := classList s confirmPassword - {''valid'', ''invalid''}),
       errorText := (errorText s)(''fullname-error'' \<mapsto> '''', ''email-error'' \<mapsto> '''',
          ''password-error'' \<mapsto> '''')\<rparr>)"
proof -
  obtain a b c where el: "errorText s ''fullname-error'' = Some a"
    "errorText s ''email-error'' = Some b" "errorText s ''password-error'' = Some c"
    using assms(2-4) by auto
  show ?thesis
    using assms(1) el
    by (simp add: resetCallback_def fieldKeys_def resetEntry_def setTextContent_def
        removeClasses_def Let_def)
qed

lemma resetEntries_complete:
  assumes "list_all (\<lambda>f. errorText s (fieldName f @ ''-error'') \<noteq> None) fs"
  shows "fst (resetEntries fs s) = Normal ()
    \<and> validationState (snd (resetEntries fs s)) =
        (\<lambda>f. if f \<in> set fs then False else validationState s f)"
  using assms
proof (induction fs arbitrary: s)
  case Nil
  then show ?case by simp
next
  case (Cons f fs)
  obtain old where el: "errorText s (fieldName f @ ''-error'') = Some old"
    using Cons.prems by auto
  let ?s = "snd (resetEntry f s)"
  have r: "resetEntry f s = (Normal (), ?s)"
    "validationState ?s = (validationState s)(f := False)"
    "\<And>i. (errorText ?s i = None) = (errorText s i = None)"
    using el by (simp_all add: resetEntry_def setTextContent_def removeClasses_def Let_def)
  have step: "resetEntries (f # fs) s = resetEntries fs ?s"
    using r(1) by (cases "resetEntry f s") simp
  have "list_all (\<lambda>f. errorText ?s (fieldName f @ ''-error'') \<noteq> None) fs"
    using Cons.prems by (simp add: r(3) del: not_None_eq)
  from Cons.IH [OF this] show ?case
    unfolding step by (auto simp: r(2) fun_eq_iff)
qed

lemma dispatch_ResetForm:
  "ResetForm \<in> snd ` set (timers s) \<Longrightarrow>
   dispatch (Timeout ResetForm) s = resetCallback (s\<lparr>timers := unschedule ResetForm (timers s)\<rparr>)"
  by simp

text \<open>
  C8. The reset callback looks the error element of a field up under the field name
  followed by \<^verbatim>\<open>-error\<close>. For \<^verbatim>\<open>confirmPassword\<close>, and for no other field, this is
  not the id that \<^verbatim>\<open>validateField\<close> uses. On a page that has no element
  \<^verbatim>\<open>confirmPassword-error\<close> (and has the error elements of the three fields before it)
  the callback throws a TypeError in the round of \<^verbatim>\<open>confirmPassword\<close>, after the
  entries of \<^verbatim>\<open>fullname\<close>, \<^verbatim>\<open>email\<close>, \<^verbatim>\<open>password\<close> and \<^verbatim>\<open>confirmPassword\<close> were
  set to false: the entries, classes and error texts of \<^verbatim>\<open>age\<close> and \<^verbatim>\<open>phone\<close> are not
  touched, and the submit button is not recomputed.
\<close>

theorem reset_faults_at_confirmPassword:
  assumes "errorText s ''confirmPassword-error'' = None"
    and "errorText s ''fullname-error'' \<noteq> None"
    and "errorText s ''email-error'' \<noteq> None"
    and "errorText s ''password-error'' \<noteq> None"
  shows "fst (resetCallback s) = Throw TypeError
    \<and> validationState (snd (resetCallback s)) =
        (validationState s)(fullname := False, email := False, password := False,
          confirmPassword := False)
    \<and> validationState (snd (resetCallback s)) age = validationState s age
    \<and> validationState (snd (resetCallback s)) phone = validationState s phone
    \<and> classList (snd (resetCallback s)) age = classList s age
    \<and> classList (snd (resetCallback s)) phone = classList s phone
    \<and> errorText (snd (resetCallback s)) ''age-error'' = errorText s ''age-error''
    \<and> errorText (snd (resetCallback s)) ''phone-error'' = errorText s ''phone-error''
    \<and> submitDisabled (snd (resetCallback s)) = submitDisabled s
    \<and> submitText (snd (resetCallback s)) = submitText s
    \<and> (fieldName f @ ''-error'' = errorElementId f) = (f \<noteq> confirmPassword)"
proof -
  have ids: "(fieldName f @ ''-error'' = errorElementId f) = (f \<noteq> confirmPassword)"
    by (cases f) (simp_all add: errorElementId_def)
  show ?thesis
    by (simp add: resetCallback_fault [OF assms] ids)
qed

theorem reset_faults_at_confirmPassword_witness:
  "errorText (run (validEntries @ [Submit]) (mount samplePage)) ''confirmPassword-error'' = None
   \<and> errorText (run (validEntries @ [Submit]) (mount samplePage)) ''fullname-error'' \<noteq> None
   \<and> errorText (run (validEntries @ [Submit]) (mount samplePage)) ''email-error'' \<noteq> None
   \<and> errorText (run (validEntries @ [Submit]) (mount samplePage)) ''password-error'' \<noteq> None
   \<and> fst (resetCallback (run (validEntries @ [Submit]) (mount samplePage))) = Throw TypeError
   \<and> validationState (snd (resetCallback (run (validEntries @ [Submit]) (mount samplePage)))) age
   \<and> validationState (snd (resetCallback (run (validEntries @ [Submit]) (mount samplePage)))) phone
   \<and> \<not> validationState (snd (resetCallback (run (validEntries @ [Submit]) (mount samplePage))))
       confirmPassword
   \<and> \<not> submitDisabled (snd (resetCallback (run (validEntries @ [Submit]) (mount samplePage))))"
proof -
  let ?s = "run (validEntries @ [Submit]) (mount samplePage)"
  have h: "errorText ?s ''confirmPassword-error'' = None"
    "errorText ?s ''fullname-error'' \<noteq> None"
    "errorText ?s ''email-error'' \<noteq> None"
    "errorText ?s ''password-error'' \<noteq> None"
    by (simp_all add: run_simps del: dispatch.simps fieldRule.simps not_None_eq)
  have v: "validationState ?s age" "validationState ?s phone" "\<not> submitDisabled ?s"
    by (simp_all add: run_simps del: dispatch.simps fieldRule.simps)
  show ?thesis
    using h v reset_faults_at_confirmPassword [OF h, of age] by simp
qed

text \<open>
  C3. What the code does at a successful submission followed by the reset timer, on a
  page with the error elements that \<^verbatim>\<open>validateField\<close> uses: the submission is
  accepted, the reset callback throws, the stored validity of \<^verbatim>\<open>age\<close> stays true
  (at mount it was false) and the submit button stays enabled over the cleared form.
  On a page that also has an element \<^verbatim>\<open>confirmPassword-error\<close> the callback
  completes and sets every entry to false, the one of \<^verbatim>\<open>phone\<close> too, which was true at
  mount.
\<close>

theorem reset_after_submission:
  "accepted (run validEntries (mount samplePage)) (run (validEntries @ [Submit]) (mount samplePage))
   \<and> fst (dispatch (Timeout ResetForm) (run (validEntries @ [Submit]) (mount samplePage)))
       = Throw TypeError
   \<and> map (validationState (run (validEntries @ [Submit, Timeout ResetForm]) (mount samplePage)))
       fieldKeys = [False, False, False, False, True, True]
   \<and> map (validationState (mount samplePage)) fieldKeys
       = [False, False, False, False, False, True]
   \<and> map (fieldValue (run (validEntries @ [Submit, Timeout ResetForm]) (mount samplePage)))
       fieldKeys = [[], [], [], [], [], []]
   \<and> \<not> submitDisabled (run (validEntries @ [Submit, Timeout ResetForm]) (mount samplePage))
   \<and> fst (resetCallback (samplePage\<lparr>errorText :=
         (errorText samplePage)(''confirmPassword-error'' \<mapsto> '''')\<rparr>)) = Normal ()
   \<and> map (validationState (snd (resetCallback (samplePage\<lparr>errorText :=
         (errorText samplePage)(''confirmPassword-error'' \<mapsto> '''')\<rparr>)))) fieldKeys
       = [False, False, False, False, False, False]"
proof -
  let ?s1 = "run validEntries (mount samplePage)"
  let ?s2 = "snd (dispatch Submit ?s1)"
  let ?s2' = "?s2\<lparr>timers := unschedule ResetForm (timers ?s2)\<rparr>"
  let ?both = "samplePage\<lparr>errorText := (errorText samplePage)(''confirmPassword-error'' \<mapsto> '''')\<rparr>"
  have a: "accepted ?s1 ?s2"
    by (simp add: run_simps del: dispatch.simps fieldRule.simps)
  have t: "ResetForm \<in> snd ` set (timers ?s2)"
    by (simp add: run_simps del: dispatch.simps fieldRule.simps)
  have h: "errorText ?s2' ''confirmPassword-error'' = None"
    "errorText ?s2' ''fullname-error'' \<noteq> None"
    "errorText ?s2' ''email-error'' \<noteq> None"
    "errorText ?s2' ''password-error'' \<noteq> None"
    by (simp_all add: run_simps del: dispatch.simps fieldRule.simps not_None_eq)
  have d: "dispatch (Timeout ResetForm) ?s2 = resetCallback ?s2'"
    using t by (rule dispatch_ResetForm)
  have v: "map (validationState ?s2) fieldKeys = [True, True, True, True, True, True]"
    "\<not> submitDisabled ?s2" "defaultValue ?s2 = (\<lambda>f. [])"
    by (simp_all add: run_simps del: dispatch.simps fieldRule.simps)
  have b: "list_all (\<lambda>f. errorText ?both (fieldName f @ ''-error'') \<noteq> None) fieldKeys"
    by (simp add: samplePage_def fieldKeys_def)
  have c: "fst (resetCallback ?both) = Normal ()
    \<and> validationState (snd (resetCallback ?both)) = (\<lambda>f. False)"
    using resetEntries_complete [of "?both\<lparr>fieldValue := defaultValue ?both,
      formDisplay := ''block'', successDisplay := ''none''\<rparr>" fieldKeys] b
    by (cases "resetEntries fieldKeys (?both\<lparr>fieldValue := defaultValue ?both,
      formDisplay := ''block'', successDisplay := ''none''\<rparr>)")
      (simp add: resetCallback_def Let_def updateSubmitButton_frame set_fieldKeys)
  show ?thesis
    using a v c
    by (simp add: run_append d resetCallback_fault [OF h] fieldKeys_def samplePage_mount
        del: dispatch.simps)
qed

end
